theory Spec2Isabelle
  imports Complex_Main "HOL-Library.Char_ord" "HOL-Library.List_Lexorder"
    "HOL-Library.Product_Lexorder"
begin

section \<open>Python values and library functions\<close>

text \<open>
  A Python \<open>str\<close> is a \<open>string\<close>: the list of the code units of its UTF-8 text. Equality,
  emptiness (Python's truthiness of a string) and the lexicographic order are the same on
  code units as on code points. A Python \<open>int\<close> is an \<open>int\<close>. A Python \<open>float\<close> (a BSON
  double) is a finite value, an infinity or NaN; the finite values are reals, so rounding is
  outside the model.

  The library functions whose behaviour is fixed by CPython's Unicode tables and number
  grammars and not by this repository are fields of the record \<open>builtins\<close>:
  \<open>str.strip()\<close>, \<open>int(str)\<close>, \<open>float(str)\<close> (\<open>None\<close> where Python raises ValueError) and
  \<open>unicodedata.normalize("NFKD", _)\<close>. The theorems hold for every such record, under the
  hypotheses they state about it.
\<close>

datatype pyfloat = Finite real | PosInf | NegInf | NaN

text \<open>MongoDB's sort order on numbers: NaN first, then \<open>-inf\<close>, the finite values, \<open>+inf\<close>.\<close>

fun sort_rank :: "pyfloat \<Rightarrow> nat \<times> real" where
  "sort_rank NaN = (0, 0)"
| "sort_rank NegInf = (1, 0)"
| "sort_rank (Finite x) = (2, x)"
| "sort_rank PosInf = (3, 0)"

text \<open>Python's \<open>a <= b\<close> on floats: false as soon as one side is NaN.\<close>

definition py_le :: "pyfloat \<Rightarrow> pyfloat \<Rightarrow> bool" where
  "py_le a b = (a \<noteq> NaN \<and> b \<noteq> NaN \<and> sort_rank a \<le> sort_rank b)"

text \<open>
  The comparison behind MongoDB's \<open>$gte\<close> and \<open>$lte\<close>: NaN equals NaN and compares false
  with every other number.
\<close>

definition mongo_le :: "pyfloat \<Rightarrow> pyfloat \<Rightarrow> bool" where
  "mongo_le a b = ((a = NaN \<and> b = NaN) \<or> py_le a b)"

record builtins =
  str_strip :: "string \<Rightarrow> string"
  int_of_str :: "string \<Rightarrow> int option"
  float_of_str :: "string \<Rightarrow> pyfloat option"
  nfkd :: "string \<Rightarrow> string"

datatype error = ValueError | OverflowError | Abort nat

section \<open>The product collection\<close>

text \<open>
  A document of \<open>db.products\<close>, with the keys \<open>admin_new\<close> writes. \<open>category\<close> and \<open>brand\<close>
  may be null (\<open>None\<close>); timestamps are points on a linear time axis.
\<close>

record product =
  name :: string
  slug :: string
  brand :: "string option"
  category :: "string option"
  price :: pyfloat
  sale_price :: pyfloat
  description :: string
  ingredients :: string
  skin_type :: string
  image_url :: string
  rating :: pyfloat
  stock :: int
  is_featured :: bool
  created_at :: int
  updated_at :: int

text \<open>
  The text index of the store (\<open>$text\<close> with \<open>$search\<close>, and the \<open>textScore\<close> meta
  projection) is MongoDB's; it is a parameter.
\<close>

record text_index =
  text_match :: "string \<Rightarrow> product \<Rightarrow> bool"
  text_score :: "string \<Rightarrow> product \<Rightarrow> real"

text \<open>The query document built by \<open>products\<close>: each key is present or absent.\<close>

record price_range =
  gte :: "pyfloat option"
  lte :: "pyfloat option"

record filters =
  f_category :: "string option"
  f_brand :: "string option"
  f_price :: "price_range option"
  f_text :: "string option"

definition no_filters :: filters where
  "no_filters = \<lparr>f_category = None, f_brand = None, f_price = None, f_text = None\<rparr>"

definition in_range :: "price_range \<Rightarrow> pyfloat \<Rightarrow> bool" where
  "in_range r x =
     ((case gte r of None \<Rightarrow> True | Some lo \<Rightarrow> mongo_le lo x) \<and>
      (case lte r of None \<Rightarrow> True | Some hi \<Rightarrow> mongo_le x hi))"

definition matches :: "text_index \<Rightarrow> filters \<Rightarrow> product \<Rightarrow> bool" where
  "matches T f d =
     ((case f_category f of None \<Rightarrow> True | Some c \<Rightarrow> category d = Some c) \<and>
      (case f_brand f of None \<Rightarrow> True | Some b \<Rightarrow> brand d = Some b) \<and>
      (case f_price f of None \<Rightarrow> True | Some r \<Rightarrow> in_range r (price d)) \<and>
      (case f_text f of None \<Rightarrow> True | Some s \<Rightarrow> text_match T s d))"

definition find_docs :: "text_index \<Rightarrow> filters \<Rightarrow> product list \<Rightarrow> product list" where
  "find_docs T f db = filter (matches T f) db"

definition count_documents :: "text_index \<Rightarrow> filters \<Rightarrow> product list \<Rightarrow> int" where
  "count_documents T f db = int (length (filter (matches T f) db))"

datatype sort_key = Created_at | Price | Rating | Name

datatype direction = ASCENDING | DESCENDING

text \<open>
  \<open>cursor.sort\<close>: the store leaves the order of documents with equal keys open; the model
  keeps them in collection order (a stable sort in both directions).
\<close>

definition sort_asc :: "sort_key \<Rightarrow> product list \<Rightarrow> product list" where
  "sort_asc k ds =
     (case k of
        Created_at \<Rightarrow> sort_key created_at ds
      | Price \<Rightarrow> sort_key (\<lambda>d. sort_rank (price d)) ds
      | Rating \<Rightarrow> sort_key (\<lambda>d. sort_rank (rating d)) ds
      | Name \<Rightarrow> sort_key name ds)"

definition cursor_sort :: "sort_key \<Rightarrow> direction \<Rightarrow> product list \<Rightarrow> product list" where
  "cursor_sort k dir ds =
     (case dir of ASCENDING \<Rightarrow> sort_asc k ds | DESCENDING \<Rightarrow> rev (sort_asc k (rev ds)))"

text \<open>
  \<open>cursor.skip\<close> raises ValueError on a negative count. The driver encodes the count as a
  BSON integer of at most 8 bytes, so fetching with a count of \<open>2^63\<close> or more raises
  OverflowError. Skipping at least as many documents as there are leaves none (this is
  \<open>drop\<close>, written so that a large count is not converted to a natural number).
  \<open>cursor.limit(0)\<close> is no limit.
\<close>

definition cursor_skip :: "int \<Rightarrow> 'a list \<Rightarrow> error + 'a list" where
  "cursor_skip n ds =
     (if n < 0 then Inl ValueError
      else if 2 ^ 63 \<le> n then Inl OverflowError
      else Inr (if int (length ds) \<le> n then [] else drop (nat n) ds))"

definition cursor_limit :: "int \<Rightarrow> 'a list \<Rightarrow> 'a list" where
  "cursor_limit n ds = (if n = 0 then ds else take (nat \<bar>n\<bar>) ds)"

definition distinct_values :: "(product \<Rightarrow> 'a) \<Rightarrow> product list \<Rightarrow> 'a list" where
  "distinct_values fld db = remdups (map fld db)"

section \<open>The catalog listing (\<open>products\<close> in app.py)\<close>

text \<open>\<open>request.args.get(key, default)\<close> on the query string.\<close>

definition args_get :: "(string \<rightharpoonup> string) \<Rightarrow> string \<Rightarrow> string \<Rightarrow> string" where
  "args_get args k dflt = (case args k of None \<Rightarrow> dflt | Some v \<Rightarrow> v)"

text \<open>\<open>int(request.args.get(key, default))\<close> with an integer default.\<close>

definition int_arg :: "builtins \<Rightarrow> (string \<rightharpoonup> string) \<Rightarrow> string \<Rightarrow> int \<Rightarrow> int option" where
  "int_arg B args k dflt = (case args k of None \<Rightarrow> Some dflt | Some v \<Rightarrow> int_of_str B v)"

definition build_price_filter :: "builtins \<Rightarrow> string \<Rightarrow> string \<Rightarrow> price_range" where
  "build_price_filter B min_price max_price =
     (let price_filter = \<lparr>gte = None, lte = None\<rparr>;
          price_filter =
            (if min_price \<noteq> [] then
               (case float_of_str B min_price of
                  Some v \<Rightarrow> price_filter\<lparr>gte := Some v\<rparr>
                | None \<Rightarrow> price_filter)
             else price_filter);
          price_filter =
            (if max_price \<noteq> [] then
               (case float_of_str B max_price of
                  Some v \<Rightarrow> price_filter\<lparr>lte := Some v\<rparr>
                | None \<Rightarrow> price_filter)
             else price_filter)
      in price_filter)"

definition build_filters ::
  "builtins \<Rightarrow> string \<Rightarrow> string \<Rightarrow> string \<Rightarrow> string \<Rightarrow> string \<Rightarrow> filters" where
  "build_filters B q category' brand' min_price max_price =
     (let filters = no_filters;
          filters = (if category' \<noteq> [] then filters\<lparr>f_category := Some category'\<rparr> else filters);
          filters = (if brand' \<noteq> [] then filters\<lparr>f_brand := Some brand'\<rparr> else filters);
          price_filter = build_price_filter B min_price max_price;
          filters =
            (if gte price_filter \<noteq> None \<or> lte price_filter \<noteq> None
             then filters\<lparr>f_price := Some price_filter\<rparr> else filters);
          filters = (if q \<noteq> [] then filters\<lparr>f_text := Some q\<rparr> else filters)
      in filters)"

definition sort_map :: "string \<rightharpoonup> sort_key \<times> direction" where
  "sort_map = map_of
     [(''newest'', (Created_at, DESCENDING)),
      (''price_asc'', (Price, ASCENDING)),
      (''price_desc'', (Price, DESCENDING)),
      (''rating'', (Rating, DESCENDING)),
      (''name_asc'', (Name, ASCENDING)),
      (''name_desc'', (Name, DESCENDING))]"

definition sort_lookup :: "string \<Rightarrow> sort_key \<times> direction" where
  "sort_lookup s = (case sort_map s of None \<Rightarrow> (Created_at, DESCENDING) | Some fd \<Rightarrow> fd)"

text \<open>A fetched document, with the \<open>score\<close> the meta projection adds when \<open>q\<close> is given.\<close>

record item =
  doc :: product
  score :: "real option"

definition project :: "text_index \<Rightarrow> string \<Rightarrow> product \<Rightarrow> item" where
  "project T q d = \<lparr>doc = d, score = (if q \<noteq> [] then Some (text_score T q d) else None)\<rparr>"

text \<open>Python's \<open>sorted\<close> on a list of strings, and the truthiness filter before it.\<close>

definition py_sorted :: "string list \<Rightarrow> string list" where
  "py_sorted xs = sort_key (\<lambda>x. x) xs"

definition truthy :: "string option list \<Rightarrow> string list" where
  "truthy vs = concat (map (\<lambda>v. case v of None \<Rightarrow> [] | Some s \<Rightarrow> (if s \<noteq> [] then [s] else [])) vs)"

text \<open>The keyword arguments handed to \<open>render_template("products.html", ...)\<close>.\<close>

record page_context =
  ctx_items :: "item list"
  ctx_total :: int
  ctx_page :: int
  ctx_pages :: int
  ctx_per_page :: int
  ctx_q :: string
  ctx_category :: string
  ctx_brand :: string
  ctx_min_price :: string
  ctx_max_price :: string
  ctx_sort :: string
  ctx_categories :: "string list"
  ctx_brands :: "string list"

definition products ::
  "builtins \<Rightarrow> text_index \<Rightarrow> int \<Rightarrow> product list \<Rightarrow> (string \<rightharpoonup> string) \<Rightarrow> error + page_context" where
  "products B T PER_PAGE db args =
     (let q = str_strip B (args_get args ''q'' []);
          category' = str_strip B (args_get args ''category'' []);
          brand' = str_strip B (args_get args ''brand'' []);
          min_price = str_strip B (args_get args ''min_price'' []);
          max_price = str_strip B (args_get args ''max_price'' []);
          sort' = str_strip B (args_get args ''sort'' ''newest'')
      in case int_arg B args ''page'' 1 of
           None \<Rightarrow> Inl ValueError
         | Some pg \<Rightarrow>
             (case int_arg B args ''per_page'' PER_PAGE of
                None \<Rightarrow> Inl ValueError
              | Some pp \<Rightarrow>
                  (let page = max 1 pg;
                       per_page = max 1 (min 60 pp);
                       filters = build_filters B q category' brand' min_price max_price;
                       (sort_field, sort_dir) = sort_lookup sort';
                       total = count_documents T filters db
                   in case cursor_skip ((page - 1) * per_page)
                             (cursor_sort sort_field sort_dir (find_docs T filters db)) of
                        Inl e \<Rightarrow> Inl e
                      | Inr skipped \<Rightarrow>
                          (let items = map (project T q) (cursor_limit per_page skipped);
                               pages = (total + per_page - 1) div per_page;
                               categories = distinct_values product.category db;
                               brands = distinct_values product.brand db
                           in Inr \<lparr>ctx_items = items, ctx_total = total, ctx_page = page,
                                    ctx_pages = pages, ctx_per_page = per_page, ctx_q = q,
                                    ctx_category = category', ctx_brand = brand',
                                    ctx_min_price = min_price, ctx_max_price = max_price,
                                    ctx_sort = sort',
                                    ctx_categories = py_sorted (truthy categories),
                                    ctx_brands = py_sorted (truthy brands)\<rparr>))))"

section \<open>Slugs (\<open>slugify\<close> in app.py)\<close>

text \<open>
  \<open>encode("ascii", "ignore")\<close> drops every code point above 127; in UTF-8 these are exactly
  the code units above 127. \<open>decode("ascii")\<close> then changes nothing.
\<close>

definition encode_ascii_ignore :: "string \<Rightarrow> string" where
  "encode_ascii_ignore s = filter (\<lambda>c. (of_char c :: nat) < 128) s"

definition is_alnum :: "char \<Rightarrow> bool" where
  "is_alnum c =
     ((CHR ''a'' \<le> c \<and> c \<le> CHR ''z'') \<or> (CHR ''A'' \<le> c \<and> c \<le> CHR ''Z'') \<or>
      (CHR ''0'' \<le> c \<and> c \<le> CHR ''9''))"

text \<open>\<open>re.sub(r"[^a-zA-Z0-9]+", "-", s)\<close>: every maximal run of other characters becomes one hyphen.\<close>

function re_sub_nonalnum :: "string \<Rightarrow> string" where
  "re_sub_nonalnum [] = []"
| "re_sub_nonalnum (c # cs) =
     (if is_alnum c then c # re_sub_nonalnum cs
      else CHR ''-'' # re_sub_nonalnum (dropWhile (\<lambda>x. \<not> is_alnum x) cs))"
  by pat_completeness auto
termination
  by (relation "measure length") (auto simp: less_Suc_eq_le length_dropWhile_le)

text \<open>\<open>s.strip(chars)\<close> with an explicit character set.\<close>

definition strip_chars :: "string \<Rightarrow> string \<Rightarrow> string" where
  "strip_chars chars s =
     rev (dropWhile (\<lambda>c. c \<in> set chars) (rev (dropWhile (\<lambda>c. c \<in> set chars) s)))"

text \<open>\<open>s.lower()\<close> on ASCII text, which is all \<open>slugify\<close> applies it to.\<close>

definition lower_char :: "char \<Rightarrow> char" where
  "lower_char c =
     (if CHR ''A'' \<le> c \<and> c \<le> CHR ''Z'' then char_of ((of_char c :: nat) + 32) else c)"

definition lower :: "string \<Rightarrow> string" where
  "lower s = map lower_char s"

definition slugify :: "builtins \<Rightarrow> string \<Rightarrow> string" where
  "slugify B s =
     (let s = encode_ascii_ignore (nfkd B s);
          s = lower (strip_chars ''-'' (re_sub_nonalnum s))
      in s)"

text \<open>
  The shape of what the substitution returns: letters, digits and hyphens, with no two
  hyphens in a row.
\<close>

definition hyphenated :: "string \<Rightarrow> bool" where
  "hyphenated t =
     ((\<forall>c\<in>set t. is_alnum c \<or> c = CHR ''-'') \<and> successively (\<lambda>a b. is_alnum a \<or> is_alnum b) t)"

section \<open>Creating a product (\<open>admin_new\<close> in app.py)\<close>

datatype http_method = GET | POST | HEAD

record request =
  r_method :: http_method
  r_headers :: "string \<rightharpoonup> string"
  r_args :: "string \<rightharpoonup> string"
  r_form :: "string \<rightharpoonup> string"

datatype response =
    Render_admin_new_product
  | Redirect_admin_new
  | Redirect_product_detail string

type_synonym flash = "string \<times> string"

text \<open>\<open>float(form.get(key, dflt) or fallback)\<close> and \<open>int(form.get(key, dflt) or fallback)\<close>.\<close>

definition float_field ::
  "builtins \<Rightarrow> (string \<rightharpoonup> string) \<Rightarrow> string \<Rightarrow> string \<Rightarrow> pyfloat \<Rightarrow> pyfloat option" where
  "float_field B form k dflt fallback =
     (let v = args_get form k dflt in if v \<noteq> [] then float_of_str B v else Some fallback)"

definition int_field :: "builtins \<Rightarrow> (string \<rightharpoonup> string) \<Rightarrow> string \<Rightarrow> string \<Rightarrow> int \<Rightarrow> int option" where
  "int_field B form k dflt fallback =
     (let v = args_get form k dflt in if v \<noteq> [] then int_of_str B v else Some fallback)"

text \<open>Truthiness of \<open>form.get(key)\<close>, and Python's \<open>a or b\<close> on such values.\<close>

definition is_true :: "string option \<Rightarrow> bool" where
  "is_true a = (case a of None \<Rightarrow> False | Some v \<Rightarrow> v \<noteq> [])"

definition or_else :: "string option \<Rightarrow> string option \<Rightarrow> string option" where
  "or_else a b = (if is_true a then a else b)"

definition or_str :: "string option \<Rightarrow> string \<Rightarrow> string" where
  "or_str a b = (case a of None \<Rightarrow> b | Some v \<Rightarrow> (if v \<noteq> [] then v else b))"

definition find_one_slug :: "product list \<Rightarrow> string \<Rightarrow> product option" where
  "find_one_slug db s = find (\<lambda>d. slug d = s) db"

text \<open>
  \<open>insert_one\<close> appends the document. The unique index on \<open>slug\<close> is not part of the model:
  \<open>ensure_indexes\<close> creates it on \<open>db\<close>, discards any failure, and \<open>admin_new\<close> writes through
  \<open>app.mongo\<close>.
\<close>

definition insert_one :: "product list \<Rightarrow> product \<Rightarrow> product list" where
  "insert_one db d = db @ [d]"

text \<open>
  The handler returns its response with the flashed messages, or the exception it raised,
  and the collection afterwards. \<open>now1\<close> and \<open>now2\<close> are the two readings of
  \<open>datetime.utcnow()\<close>.
\<close>

definition admin_new ::
  "builtins \<Rightarrow> string \<Rightarrow> int \<Rightarrow> int \<Rightarrow> product list \<Rightarrow> request
     \<Rightarrow> (error + response \<times> flash list) \<times> product list" where
  "admin_new B ADMIN_TOKEN now1 now2 db req =
     (let token = or_else (r_headers req ''X-Admin-Token'') (r_args req ''token'')
      in if token \<noteq> Some ADMIN_TOKEN then (Inl (Abort 403), db)
         else if r_method req = GET then (Inr (Render_admin_new_product, []), db)
         else
           (let form = r_form req;
                name' = str_strip B (args_get form ''name'' [])
            in if name' = [] then
                 (Inr (Redirect_admin_new, [(''Name is required'', ''warning'')]), db)
               else
                 (case float_field B form ''price'' ''0'' (Finite 0) of
                    None \<Rightarrow> (Inl ValueError, db)
                  | Some price' \<Rightarrow>
                 (case float_field B form ''sale_price'' ''0'' (Finite 0) of
                    None \<Rightarrow> (Inl ValueError, db)
                  | Some sale_price' \<Rightarrow>
                 (case float_field B form ''rating'' ''4.8'' (Finite (48 / 10)) of
                    None \<Rightarrow> (Inl ValueError, db)
                  | Some rating' \<Rightarrow>
                 (case int_field B form ''stock'' ''100'' 100 of
                    None \<Rightarrow> (Inl ValueError, db)
                  | Some stock' \<Rightarrow>
                   (let image = str_strip B (args_get form ''image_url'' []);
                        d = \<lparr>name = name',
                             slug = slugify B (or_str (form ''slug'') name'),
                             brand = Some (str_strip B (args_get form ''brand'' [])),
                             category = Some (str_strip B (args_get form ''category'' [])),
                             price = price',
                             sale_price = sale_price',
                             description = str_strip B (args_get form ''description'' []),
                             ingredients = str_strip B (args_get form ''ingredients'' []),
                             skin_type = str_strip B (args_get form ''skin_type'' []),
                             image_url = (if image \<noteq> [] then image else ''/static/img/placeholder.svg''),
                             rating = rating',
                             stock = stock',
                             is_featured = is_true (form ''is_featured''),
                             created_at = now1,
                             updated_at = now2\<rparr>;
                        existing = find_one_slug db (slug d)
                    in if existing \<noteq> None then
                         (Inr (Redirect_admin_new,
                               [(''A product with that slug already exists.'', ''danger'')]), db)
                       else
                         (Inr (Redirect_product_detail (slug d), [(''Product created.'', ''success'')]),
                          insert_one db d))))))))"

text \<open>
  Any method other than GET takes the creating branch: the route admits GET and POST, and
  Flask adds HEAD to a route that admits GET.
\<close>

text \<open>The invariant of the data model: slugs are unique, prices and sale prices non-negative.\<close>

definition store_inv :: "product list \<Rightarrow> bool" where
  "store_inv db =
     (distinct (map slug db) \<and>
      list_all (\<lambda>d. py_le (Finite 0) (price d) \<and> py_le (Finite 0) (sale_price d)) db)"

section \<open>A concrete environment for evaluation\<close>

text \<open>
  On ASCII text: \<open>strip\<close> removes the ASCII whitespace characters; \<open>int\<close> reads an optional
  sign and decimal digits, after stripping; \<open>float\<close> reads a decimal number (an optional sign
  and digits around an optional point) or, in any letter case and with an optional sign, one
  of the names \<open>inf\<close>, \<open>infinity\<close> and \<open>nan\<close>; NFKD leaves ASCII text as it is. Exponent
  notation and underscores between digits are not read. These agree with CPython on the
  requests evaluated below.
\<close>

definition is_space :: "char \<Rightarrow> bool" where
  "is_space c = ((of_char c :: nat) \<in> {9, 10, 11, 12, 13, 28, 29, 30, 31, 32})"

definition ascii_strip :: "string \<Rightarrow> string" where
  "ascii_strip s = rev (dropWhile is_space (rev (dropWhile is_space s)))"

definition is_digit :: "char \<Rightarrow> bool" where
  "is_digit c = (CHR ''0'' \<le> c \<and> c \<le> CHR ''9'')"

definition digits_val :: "string \<Rightarrow> int" where
  "digits_val ds = foldl (\<lambda>n c. 10 * n + ((of_char c :: int) - 48)) 0 ds"

definition unsigned_int :: "string \<Rightarrow> int option" where
  "unsigned_int ds = (if ds \<noteq> [] \<and> list_all is_digit ds then Some (digits_val ds) else None)"

definition unsigned_float :: "string \<Rightarrow> real option" where
  "unsigned_float s =
     (let ip = takeWhile (\<lambda>c. c \<noteq> CHR ''.'') s;
          rest = dropWhile (\<lambda>c. c \<noteq> CHR ''.'') s;
          fp = (if rest = [] then [] else tl rest)
      in if (ip \<noteq> [] \<or> fp \<noteq> []) \<and> list_all is_digit ip \<and> list_all is_digit fp
         then Some (real_of_int (digits_val ip) + real_of_int (digits_val fp) / 10 ^ length fp)
         else None)"

definition signed :: "(string \<Rightarrow> 'a option) \<Rightarrow> ('a \<Rightarrow> 'b) \<Rightarrow> ('a \<Rightarrow> 'b) \<Rightarrow> string \<Rightarrow> 'b option" where
  "signed p pos neg s =
     (case ascii_strip s of
        [] \<Rightarrow> None
      | c # cs \<Rightarrow>
          (if c = CHR ''-'' then map_option neg (p cs)
           else if c = CHR ''+'' then map_option pos (p cs)
           else map_option pos (p (c # cs))))"

definition ascii_int :: "string \<Rightarrow> int option" where
  "ascii_int s = signed unsigned_int (\<lambda>n. n) (\<lambda>n. - n) s"

definition ascii_decimal :: "string \<Rightarrow> real option" where
  "ascii_decimal s = signed unsigned_float (\<lambda>x. x) (\<lambda>x. - x) s"

definition special_float :: "string \<Rightarrow> pyfloat option" where
  "special_float s =
     (if lower s = ''inf'' \<or> lower s = ''infinity'' then Some PosInf
      else if lower s = ''nan'' then Some NaN
      else None)"

fun negate :: "pyfloat \<Rightarrow> pyfloat" where
  "negate (Finite x) = Finite (- x)"
| "negate PosInf = NegInf"
| "negate NegInf = PosInf"
| "negate NaN = NaN"

definition ascii_float :: "string \<Rightarrow> pyfloat option" where
  "ascii_float s =
     (case ascii_decimal s of
        Some x \<Rightarrow> Some (Finite x)
      | None \<Rightarrow> signed special_float (\<lambda>x. x) negate s)"

definition ascii_builtins :: builtins where
  "ascii_builtins =
     \<lparr>str_strip = ascii_strip, int_of_str = ascii_int, float_of_str = ascii_float,
      nfkd = (\<lambda>s. s)\<rparr>"

text \<open>A stand-in text index: a term matches the documents whose name it is.\<close>

definition name_index :: text_index where
  "name_index = \<lparr>text_match = (\<lambda>q d. name d = q), text_score = (\<lambda>q d. 1)\<rparr>"

definition sample_product :: "string \<Rightarrow> string option \<Rightarrow> string option \<Rightarrow> real \<Rightarrow> int \<Rightarrow> product" where
  "sample_product n b c p t =
     \<lparr>name = n, slug = slugify ascii_builtins n, brand = b, category = c, price = Finite p,
      sale_price = Finite p, description = [], ingredients = [], skin_type = [],
      image_url = ''/static/img/placeholder.svg'', rating = Finite (48 / 10), stock = 100,
      is_featured = False, created_at = t, updated_at = t\<rparr>"

definition catalog :: "product list" where
  "catalog =
     [sample_product ''Velvet Matte'' (Some ''LuxeLily'') (Some ''Lipstick'') 850 3,
      sample_product ''Dew Drop'' (Some ''AuraGlow'') (Some ''Serum'') 1200 1,
      sample_product ''Ruby Kiss'' (Some ''KenChic'') (Some ''Lipstick'') 600 2,
      sample_product ''Plain Balm'' (Some []) None 40 4]"

section \<open>Reading a request\<close>

abbreviation stripped :: "builtins \<Rightarrow> (string \<rightharpoonup> string) \<Rightarrow> string \<Rightarrow> string \<Rightarrow> string" where
  "stripped B args k dflt \<equiv> str_strip B (args_get args k dflt)"

abbreviation request_filters :: "builtins \<Rightarrow> (string \<rightharpoonup> string) \<Rightarrow> filters" where
  "request_filters B args \<equiv>
     build_filters B (stripped B args ''q'' []) (stripped B args ''category'' [])
       (stripped B args ''brand'' []) (stripped B args ''min_price'' [])
       (stripped B args ''max_price'' [])"

abbreviation request_sort :: "builtins \<Rightarrow> (string \<rightharpoonup> string) \<Rightarrow> sort_key \<times> direction" where
  "request_sort B args \<equiv> sort_lookup (stripped B args ''sort'' ''newest'')"

abbreviation sorted_matches ::
  "builtins \<Rightarrow> text_index \<Rightarrow> product list \<Rightarrow> (string \<rightharpoonup> string) \<Rightarrow> product list" where
  "sorted_matches B T db args \<equiv>
     cursor_sort (fst (request_sort B args)) (snd (request_sort B args))
       (find_docs T (request_filters B args) db)"

section \<open>The handler, case by case\<close>

lemma skip_nonneg: "\<not> (max 1 (pg::int) - 1) * max 1 (min 60 pp) < 0"
proof -
  have "0 \<le> max 1 pg - 1" "0 \<le> max 1 (min 60 pp)" by simp_all
  then have "0 \<le> (max 1 pg - 1) * max 1 (min 60 pp)" by (rule mult_nonneg_nonneg)
  then show ?thesis unfolding not_less .
qed

lemma cursor_skip_page:
  assumes "(max 1 pg - 1) * max 1 (min 60 pp) < 2 ^ 63"
  shows "cursor_skip ((max 1 pg - 1) * max 1 (min 60 pp)) ds
     = Inr (drop (nat ((max 1 pg - 1) * max 1 (min 60 pp))) ds)"
proof -
  from assms have "\<not> 2 ^ 63 \<le> (max 1 pg - 1) * max 1 (min 60 pp)" by (simp only: not_le)
  moreover have "(if int (length ds) \<le> n then [] else drop (nat n) ds) = drop (nat n) ds" for n
    by simp
  ultimately show ?thesis
    using skip_nonneg[of pg pp] unfolding cursor_skip_def by (simp only: if_False)
qed

lemma cursor_skip_overflow:
  assumes "2 ^ 63 \<le> (max 1 pg - 1) * max 1 (min 60 pp)"
  shows "cursor_skip ((max 1 pg - 1) * max 1 (min 60 pp)) ds = Inl OverflowError"
  using skip_nonneg[of pg pp] assms unfolding cursor_skip_def by (simp only: if_False if_True)

lemma cursor_limit_page:
  "cursor_limit (max 1 (min 60 pp)) ds = take (nat (max 1 (min 60 pp))) ds"
proof -
  have "max 1 (min 60 pp) \<noteq> 0" "\<bar>max 1 (min 60 pp)\<bar> = max 1 (min 60 pp)" by simp_all
  then show ?thesis unfolding cursor_limit_def by (simp only: if_False)
qed

lemma products_Some:
  assumes pg: "int_arg B args ''page'' 1 = Some pg"
      and pp: "int_arg B args ''per_page'' PER_PAGE = Some pp"
      and small: "(max 1 pg - 1) * max 1 (min 60 pp) < 2 ^ 63"
  shows "products B T PER_PAGE db args =
    Inr \<lparr>ctx_items =
            map (project T (stripped B args ''q'' []))
              (take (nat (max 1 (min 60 pp)))
                 (drop (nat ((max 1 pg - 1) * max 1 (min 60 pp))) (sorted_matches B T db args))),
          ctx_total = count_documents T (request_filters B args) db,
          ctx_page = max 1 pg,
          ctx_pages = (count_documents T (request_filters B args) db + max 1 (min 60 pp) - 1)
                        div max 1 (min 60 pp),
          ctx_per_page = max 1 (min 60 pp),
          ctx_q = stripped B args ''q'' [],
          ctx_category = stripped B args ''category'' [],
          ctx_brand = stripped B args ''brand'' [],
          ctx_min_price = stripped B args ''min_price'' [],
          ctx_max_price = stripped B args ''max_price'' [],
          ctx_sort = stripped B args ''sort'' ''newest'',
          ctx_categories = py_sorted (truthy (distinct_values category db)),
          ctx_brands = py_sorted (truthy (distinct_values brand db))\<rparr>"
  unfolding products_def Let_def pg pp option.case split_beta cursor_skip_page[OF small] sum.case
    cursor_limit_page
  by (rule refl)

lemma products_Overflow:
  assumes pg: "int_arg B args ''page'' 1 = Some pg"
      and pp: "int_arg B args ''per_page'' PER_PAGE = Some pp"
      and big: "2 ^ 63 \<le> (max 1 pg - 1) * max 1 (min 60 pp)"
  shows "products B T PER_PAGE db args = Inl OverflowError"
  unfolding products_def Let_def pg pp option.case split_beta cursor_skip_overflow[OF big] sum.case
  by (rule refl)

lemma products_None_page:
  "int_arg B args ''page'' 1 = None \<Longrightarrow> products B T PER_PAGE db args = Inl ValueError"
  unfolding products_def Let_def by (simp only: option.case)

lemma products_None_per_page:
  "int_arg B args ''per_page'' PER_PAGE = None \<Longrightarrow> products B T PER_PAGE db args = Inl ValueError"
  unfolding products_def Let_def
  by (cases "int_arg B args ''page'' 1") (simp_all only: option.case)

lemma products_InrE:
  assumes "products B T PER_PAGE db args = Inr r"
  obtains pg pp where "int_arg B args ''page'' 1 = Some pg"
    and "int_arg B args ''per_page'' PER_PAGE = Some pp"
proof (cases "int_arg B args ''page'' 1")
  case None
  from products_None_page[OF this] assms show ?thesis by simp
next
  case pg: (Some pg)
  show ?thesis
  proof (cases "int_arg B args ''per_page'' PER_PAGE")
    case None
    from products_None_per_page[OF this] assms show ?thesis by simp
  next
    case (Some pp)
    with pg that show ?thesis by blast
  qed
qed

lemma map_doc_project: "map doc (map (project T q) ds) = ds"
  by (induction ds) (simp_all add: project_def)

lemma length_cursor_sort: "length (cursor_sort k dir ds) = length ds"
  by (simp add: cursor_sort_def sort_asc_def split: direction.splits sort_key.splits)

lemma products_Inr_small:
  assumes run: "products B T PER_PAGE db args = Inr r"
      and pg: "int_arg B args ''page'' 1 = Some pg"
      and pp: "int_arg B args ''per_page'' PER_PAGE = Some pp"
  shows "(max 1 pg - 1) * max 1 (min 60 pp) < 2 ^ 63"
proof (rule ccontr)
  assume "\<not> (max 1 pg - 1) * max 1 (min 60 pp) < 2 ^ 63"
  then have "2 ^ 63 \<le> (max 1 pg - 1) * max 1 (min 60 pp)" by (simp only: not_less)
  from products_Overflow[OF pg pp this, of T db] run show False by simp
qed

lemma products_fields:
  assumes run: "products B T PER_PAGE db args = Inr r"
      and pg: "int_arg B args ''page'' 1 = Some pg"
      and pp: "int_arg B args ''per_page'' PER_PAGE = Some pp"
  shows "ctx_items r = map (project T (stripped B args ''q'' []))
              (take (nat (max 1 (min 60 pp)))
                 (drop (nat ((max 1 pg - 1) * max 1 (min 60 pp))) (sorted_matches B T db args)))"
    and "ctx_total r = count_documents T (request_filters B args) db"
    and "ctx_page r = max 1 pg"
    and "ctx_per_page r = max 1 (min 60 pp)"
    and "ctx_categories r = py_sorted (truthy (distinct_values category db))"
    and "ctx_brands r = py_sorted (truthy (distinct_values brand db))"
    and "ctx_pages r = (count_documents T (request_filters B args) db + max 1 (min 60 pp) - 1)
                        div max 1 (min 60 pp)"
proof -
  note small = products_Inr_small[OF run pg pp]
  note r = run[unfolded products_Some[OF pg pp small], simplified sum.inject, symmetric]
  show "ctx_items r = map (project T (stripped B args ''q'' []))
              (take (nat (max 1 (min 60 pp)))
                 (drop (nat ((max 1 pg - 1) * max 1 (min 60 pp))) (sorted_matches B T db args)))"
    by (subst r) (simp only: page_context.select_convs)
  show "ctx_total r = count_documents T (request_filters B args) db"
    by (subst r) (simp only: page_context.select_convs)
  show "ctx_page r = max 1 pg"
    by (subst r) (simp only: page_context.select_convs)
  show "ctx_per_page r = max 1 (min 60 pp)"
    by (subst r) (simp only: page_context.select_convs)
  show "ctx_categories r = py_sorted (truthy (distinct_values category db))"
    by (subst r) (simp only: page_context.select_convs)
  show "ctx_brands r = py_sorted (truthy (distinct_values brand db))"
    by (subst r) (simp only: page_context.select_convs)
  show "ctx_pages r = (count_documents T (request_filters B args) db + max 1 (min 60 pp) - 1)
                        div max 1 (min 60 pp)"
    by (subst r) (simp only: page_context.select_convs)
qed

lemma products_Inr_ex:
  assumes pg: "int_arg B args ''page'' 1 = Some pg"
      and pp: "int_arg B args ''per_page'' PER_PAGE = Some pp"
      and small: "(max 1 pg - 1) * max 1 (min 60 pp) < 2 ^ 63"
  shows "\<exists>r. products B T PER_PAGE db args = Inr r"
  unfolding products_Some[OF pg pp small] by (rule exI) (rule refl)

section \<open>Pagination\<close>

lemma ceil_div_int:
  assumes p: "0 < (p::int)"
  shows "(t + p - 1) div p = - ((- t) div p)"
proof (cases "t mod p = 0")
  case True
  then obtain k where k: "t = k * p" by (metis mod_eq_0_iff_dvd dvd_def mult.commute)
  have "(k * p + p - 1) div p = k"
  proof -
    have "((p - 1) + k * p) div p = (p - 1) div p + k" using p by simp
    moreover have "(p - 1) div p = 0" using p by (simp add: div_pos_pos_trivial)
    ultimately show ?thesis by (simp add: algebra_simps)
  qed
  moreover have "(- (k * p)) div p = - k"
  proof -
    have "- (k * p) = (- k) * p" by simp
    then show ?thesis using p by (metis less_irrefl nonzero_mult_div_cancel_right)
  qed
  ultimately show ?thesis using k by simp
next
  case False
  define m where "m = t mod p"
  define k where "k = t div p"
  have t: "t = m + k * p" unfolding m_def k_def by simp
  have "0 \<le> t mod p" using p by (rule pos_mod_sign)
  with False have "0 < t mod p" by linarith
  moreover have "t mod p < p" using p by (rule pos_mod_bound)
  ultimately have m: "0 < m" "m < p" unfolding m_def by blast+
  have "(t + p - 1) div p = ((m - 1) + (k + 1) * p) div p" unfolding t by (simp add: algebra_simps)
  also have "\<dots> = (m - 1) div p + (k + 1)" using p by simp
  also have "(m - 1) div p = 0" using m by (simp add: div_pos_pos_trivial)
  finally have a: "(t + p - 1) div p = k + 1" by simp
  have "(- t) div p = ((p - m) + (- k - 1) * p) div p" unfolding t by (simp add: algebra_simps)
  also have "\<dots> = (p - m) div p + (- k - 1)" using p by simp
  also have "(p - m) div p = 0" using m by (simp add: div_pos_pos_trivial)
  finally have b: "(- t) div p = - k - 1" by simp
  show ?thesis using a b by simp
qed

lemma ceil_div:
  assumes "0 < (p::int)"
  shows "(t + p - 1) div p = \<lceil>real_of_int t / real_of_int p\<rceil>"
  using ceil_div_int[OF assms, of t] by (simp add: ceiling_divide_eq_div)

lemma ceil_div_zero_iff:
  assumes "0 < (p::int)" "0 \<le> t"
  shows "((t + p - 1) div p = 0) = (t = 0)"
proof
  assume "(t + p - 1) div p = 0"
  then have "t + p - 1 < p" using assms
    by (metis add_nonneg_nonneg diff_ge_0_iff_ge div_pos_pos_trivial int_one_le_iff_zero_less
        linorder_not_less less_irrefl pos_imp_zdiv_pos_iff zero_less_iff_neq_zero add.commute
        add_diff_eq)
  then show "t = 0" using assms by linarith
next
  assume "t = 0"
  then show "(t + p - 1) div p = 0" using assms by (simp add: div_pos_pos_trivial)
qed

text \<open>
  C1. Whenever the listing returns, the count is non-negative, the page size is positive,
  and \<open>pages\<close> is the integer expression \<open>(total + per_page - 1) div per_page\<close>, which is
  the ceiling of \<open>total / per_page\<close>; \<open>pages\<close> is 0 exactly when \<open>total\<close> is 0.
\<close>

theorem pages_is_ceiling:
  assumes run: "products B T PER_PAGE db args = Inr r"
  shows "0 \<le> ctx_total r \<and> 0 < ctx_per_page r \<and>
         ctx_pages r = (ctx_total r + ctx_per_page r - 1) div ctx_per_page r \<and>
         ctx_pages r = \<lceil>real_of_int (ctx_total r) / real_of_int (ctx_per_page r)\<rceil> \<and>
         ((ctx_pages r = 0) = (ctx_total r = 0))"
proof -
  from run obtain pg pp where pg: "int_arg B args ''page'' 1 = Some pg"
    and pp: "int_arg B args ''per_page'' PER_PAGE = Some pp"
    by (rule products_InrE)
  note f = products_fields[OF run pg pp]
  have tot: "ctx_total r = count_documents T (request_filters B args) db"
    and per: "ctx_per_page r = max 1 (min 60 pp)"
    by (rule f)+
  have pages: "ctx_pages r = (ctx_total r + ctx_per_page r - 1) div ctx_per_page r"
    unfolding f(7) f(2) f(4) ..
  have t0: "0 \<le> ctx_total r" unfolding tot count_documents_def by simp
  have p0: "0 < ctx_per_page r" unfolding per by simp
  show ?thesis
    using t0 p0 pages ceil_div[OF p0, of "ctx_total r"] ceil_div_zero_iff[OF p0 t0]
    by simp
qed

theorem pages_is_ceiling_witness:
  "\<exists>r. products ascii_builtins name_index 12 catalog [''per_page'' \<mapsto> ''3''] = Inr r \<and>
       ctx_total r = 4 \<and> ctx_per_page r = 3 \<and> ctx_pages r = 2"
proof -
  let ?args = "[''per_page'' \<mapsto> ''3'']"
  have pg: "int_arg ascii_builtins ?args ''page'' 1 = Some 1" by code_simp
  have pp: "int_arg ascii_builtins ?args ''per_page'' 12 = Some 3" by code_simp
  have cnt: "count_documents name_index (request_filters ascii_builtins ?args) catalog = 4"
    by code_simp
  have small: "(max 1 1 - 1) * max 1 (min 60 3) < (2::int) ^ 63" by simp
  from products_Inr_ex[OF pg pp small]
  obtain r where e: "products ascii_builtins name_index 12 catalog ?args = Inr r" ..
  note f = products_fields[OF e pg pp]
  have t: "ctx_total r = 4" unfolding f(2) by (rule cnt)
  have p: "ctx_per_page r = 3" unfolding f(4) by simp
  from pages_is_ceiling[OF e] have "ctx_pages r = (ctx_total r + ctx_per_page r - 1) div ctx_per_page r"
    by blast
  then have "ctx_pages r = 2" unfolding t p by simp
  with e t p show ?thesis by blast
qed

text \<open>
  C2 as stated fails: \<open>page\<close> has no upper clamp, and a skip of \<open>2^63\<close> or more cannot be
  encoded for the store. Here four documents match, the skip is far beyond them, and the
  fetch raises OverflowError instead of returning an empty list.
\<close>

theorem items_within_page_counterexample:
  "int_arg ascii_builtins [''page'' \<mapsto> ''100000000000000000000''] ''page'' 1
     = Some 100000000000000000000 \<and>
   count_documents name_index
     (request_filters ascii_builtins [''page'' \<mapsto> ''100000000000000000000'']) catalog = 4 \<and>
   products ascii_builtins name_index 12 catalog [''page'' \<mapsto> ''100000000000000000000'']
     = Inl OverflowError"
  by code_simp

text \<open>
  C2, amended. A request whose \<open>page\<close> and \<open>per_page\<close> are read as integers, and whose skip
  \<open>(page - 1) * per_page\<close> after clamping is below \<open>2^63\<close>, returns a listing and not an
  error; its items are at most \<open>per_page\<close> many; they are the matching documents in sort
  order after skipping \<open>(page - 1) * per_page\<close> of them; and when that skip reaches or
  exceeds the matching count the item list is empty.
\<close>

theorem items_within_page:
  assumes pg: "int_arg B args ''page'' 1 = Some pg"
      and pp: "int_arg B args ''per_page'' PER_PAGE = Some pp"
      and small: "(max 1 pg - 1) * max 1 (min 60 pp) < 2 ^ 63"
  shows "\<exists>r. products B T PER_PAGE db args = Inr r \<and>
           int (length (ctx_items r)) \<le> ctx_per_page r \<and>
           map doc (ctx_items r) =
             take (nat (ctx_per_page r))
               (drop (nat ((ctx_page r - 1) * ctx_per_page r)) (sorted_matches B T db args)) \<and>
           (ctx_total r \<le> (ctx_page r - 1) * ctx_per_page r \<longrightarrow> ctx_items r = [])"
proof -
  let ?skip = "(max 1 pg - 1) * max 1 (min 60 pp)"
  let ?lim = "max 1 (min 60 pp)"
  from products_Inr_ex[OF pg pp small]
  obtain r where e: "products B T PER_PAGE db args = Inr r" ..
  note f = products_fields[OF e pg pp]
  note items = f(1) and tot = f(2) and page = f(3) and per = f(4)
  have "length (ctx_items r) \<le> nat ?lim" unfolding items by simp
  then have len: "int (length (ctx_items r)) \<le> ctx_per_page r"
    unfolding per by linarith
  have docs: "map doc (ctx_items r) =
      take (nat (ctx_per_page r)) (drop (nat ((ctx_page r - 1) * ctx_per_page r)) (sorted_matches B T db args))"
    unfolding items page per map_doc_project ..
  have lens: "length (sorted_matches B T db args) = nat (ctx_total r)"
    unfolding tot count_documents_def find_docs_def length_cursor_sort by simp
  have empty: "ctx_total r \<le> (ctx_page r - 1) * ctx_per_page r \<longrightarrow> ctx_items r = []"
  proof
    assume "ctx_total r \<le> (ctx_page r - 1) * ctx_per_page r"
    then have "length (sorted_matches B T db args) \<le> nat ?skip"
      unfolding lens page per by simp
    then show "ctx_items r = []" unfolding items by simp
  qed
  from e len docs empty show ?thesis by blast
qed

text \<open>
  Page 5 of size 2 over four matching documents: the skip is 8 and the page is empty.
\<close>

theorem items_within_page_witness:
  "\<exists>r. products ascii_builtins name_index 12 catalog [''page'' \<mapsto> ''5'', ''per_page'' \<mapsto> ''2''] = Inr r \<and>
       ctx_total r = 4 \<and> ctx_page r = 5 \<and> ctx_per_page r = 2 \<and> ctx_items r = []"
proof -
  let ?args = "[''page'' \<mapsto> ''5'', ''per_page'' \<mapsto> ''2'']"
  have pg: "int_arg ascii_builtins ?args ''page'' 1 = Some 5" by code_simp
  have pp: "int_arg ascii_builtins ?args ''per_page'' 12 = Some 2" by code_simp
  have small: "(max 1 5 - 1) * max 1 (min 60 2) < (2::int) ^ 63" by simp
  have cnt: "count_documents name_index (request_filters ascii_builtins ?args) catalog = 4"
    by code_simp
  from items_within_page[OF pg pp small, of name_index catalog]
  obtain r where run: "products ascii_builtins name_index 12 catalog ?args = Inr r"
    and empty: "ctx_total r \<le> (ctx_page r - 1) * ctx_per_page r \<longrightarrow> ctx_items r = []"
    by blast
  note f = products_fields[OF run pg pp]
  have t: "ctx_total r = 4" unfolding f(2) by (rule cnt)
  have p: "ctx_page r = 5" unfolding f(3) by simp
  have q: "ctx_per_page r = 2" unfolding f(4) by simp
  from empty have "ctx_items r = []" unfolding t p q by simp
  with run t p q show ?thesis by blast
qed

text \<open>
  C5 as stated fails: \<open>int()\<close> is applied to \<open>page\<close> and \<open>per_page\<close> unguarded, so a
  value that is not an integer literal raises ValueError instead of being clamped; and
  \<open>page\<close> has no upper clamp, so a value whose skip reaches \<open>2^63\<close> raises OverflowError
  when the page is fetched.
\<close>

theorem page_clamp_counterexample:
  "products ascii_builtins name_index 12 catalog [''page'' \<mapsto> ''abc''] = Inl ValueError \<and>
   products ascii_builtins name_index 12 catalog [''page'' \<mapsto> ''999999999999999999999'']
     = Inl OverflowError"
  by code_simp

text \<open>
  C5, amended. When \<open>int()\<close> accepts \<open>page\<close> and \<open>per_page\<close> (or they are absent and the
  defaults 1 and \<open>PER_PAGE\<close> apply) and the skip \<open>(page - 1) * per_page\<close> of the clamped
  values is below \<open>2^63\<close>, the listing returns with \<open>page\<close> raised to at least 1 and
  \<open>per_page\<close> clamped into 1..60; within that bound no value in or out of range is an
  error.
\<close>

theorem page_clamped:
  assumes pg: "int_arg B args ''page'' 1 = Some pg"
      and pp: "int_arg B args ''per_page'' PER_PAGE = Some pp"
      and small: "(max 1 pg - 1) * max 1 (min 60 pp) < 2 ^ 63"
  shows "\<exists>r. products B T PER_PAGE db args = Inr r \<and>
           ctx_page r = max 1 pg \<and> ctx_per_page r = max 1 (min 60 pp) \<and>
           1 \<le> ctx_page r \<and> 1 \<le> ctx_per_page r \<and> ctx_per_page r \<le> 60"
  unfolding products_Some[OF pg pp small] by simp

text \<open>
  \<open>page=-3\<close> and \<open>per_page=500\<close> are served as page 1 of size 60.
\<close>

theorem page_clamped_witness:
  "\<exists>r. products ascii_builtins name_index 12 catalog [''page'' \<mapsto> ''-3'', ''per_page'' \<mapsto> ''500''] = Inr r \<and>
       ctx_page r = 1 \<and> ctx_per_page r = 60"
proof -
  let ?args = "[''page'' \<mapsto> ''-3'', ''per_page'' \<mapsto> ''500'']"
  have pg: "int_arg ascii_builtins ?args ''page'' 1 = Some (- 3)" by code_simp
  have pp: "int_arg ascii_builtins ?args ''per_page'' 12 = Some 500" by code_simp
  have small: "(max 1 (- 3) - 1) * max 1 (min 60 500) < (2::int) ^ 63" by simp
  from page_clamped[OF pg pp small, of name_index catalog] show ?thesis by auto
qed

section \<open>Lenient parameters\<close>

lemma build_price_filter_bad_min:
  "float_of_str B mn = None \<Longrightarrow> build_price_filter B mn mx = build_price_filter B [] mx"
  by (simp add: build_price_filter_def Let_def split: option.splits)

lemma build_price_filter_bad_max:
  "float_of_str B mx = None \<Longrightarrow> build_price_filter B mn mx = build_price_filter B mn []"
  by (simp add: build_price_filter_def Let_def split: option.splits)

lemma build_filters_bad_min:
  "float_of_str B mn = None \<Longrightarrow> build_filters B q c b mn mx = build_filters B q c b [] mx"
  unfolding build_filters_def by (simp only: build_price_filter_bad_min)

lemma build_filters_bad_max:
  "float_of_str B mx = None \<Longrightarrow> build_filters B q c b mn mx = build_filters B q c b mn []"
  unfolding build_filters_def by (simp only: build_price_filter_bad_max)

lemma products_cong_error:
  assumes "int_arg B a ''page'' 1 = int_arg B a' ''page'' 1"
      and "int_arg B a ''per_page'' PER_PAGE = int_arg B a' ''per_page'' PER_PAGE"
      and "\<And>pg pp. int_arg B a ''page'' 1 = Some pg \<Longrightarrow> int_arg B a ''per_page'' PER_PAGE = Some pp
             \<Longrightarrow> (max 1 pg - 1) * max 1 (min 60 pp) < 2 ^ 63
             \<Longrightarrow> products B T PER_PAGE db a = map_sum id f (products B T PER_PAGE db a')"
  shows "products B T PER_PAGE db a = map_sum id f (products B T PER_PAGE db a')"
proof (cases "int_arg B a ''page'' 1")
  case None
  then have "int_arg B a' ''page'' 1 = None" using assms(1) by simp
  from products_None_page[OF None] products_None_page[OF this] show ?thesis by simp
next
  case pg: (Some pg)
  show ?thesis
  proof (cases "int_arg B a ''per_page'' PER_PAGE")
    case None
    then have "int_arg B a' ''per_page'' PER_PAGE = None" using assms(2) by simp
    from products_None_per_page[OF None] products_None_per_page[OF this] show ?thesis by simp
  next
    case pp: (Some pp)
    show ?thesis
    proof (cases "(max 1 pg - 1) * max 1 (min 60 pp) < 2 ^ 63")
      case True
      with pg pp assms(3) show ?thesis by blast
    next
      case False
      then have big: "2 ^ 63 \<le> (max 1 pg - 1) * max 1 (min 60 pp)" by (simp only: not_less)
      have pg': "int_arg B a' ''page'' 1 = Some pg" using pg assms(1) by simp
      have pp': "int_arg B a' ''per_page'' PER_PAGE = Some pp" using pp assms(2) by simp
      from products_Overflow[OF pg pp big] products_Overflow[OF pg' pp' big]
      show ?thesis by simp
    qed
  qed
qed

text \<open>
  C3 as stated fails: \<open>float()\<close> also accepts the names \<open>inf\<close>, \<open>infinity\<close> and \<open>nan\<close>,
  which are not decimal numbers, and the handler keeps what it returns as a bound. With
  \<open>min_price=inf\<close> or \<open>min_price=nan\<close> nothing matches, where four documents match without
  the parameter.
\<close>

theorem malformed_price_counterexample:
  "ascii_decimal ''inf'' = None \<and> ascii_decimal ''nan'' = None \<and>
   float_of_str ascii_builtins (str_strip ascii_builtins ''inf'') = Some PosInf \<and>
   float_of_str ascii_builtins (str_strip ascii_builtins ''nan'') = Some NaN \<and>
   map_sum id ctx_total
     (products ascii_builtins name_index 12 catalog [''min_price'' \<mapsto> ''inf'']) = Inr 0 \<and>
   map_sum id ctx_total
     (products ascii_builtins name_index 12 catalog [''min_price'' \<mapsto> ''nan'']) = Inr 0 \<and>
   map_sum id ctx_total (products ascii_builtins name_index 12 catalog Map.empty) = Inr 4"
  by code_simp

text \<open>
  C3, amended. A \<open>min_price\<close> or \<open>max_price\<close> whose trimmed text \<open>float()\<close> rejects is dropped: the
  request gives what the same request without that parameter gives (the same listing, or
  the same error if \<open>page\<close> or \<open>per_page\<close> cannot be served), except that the template is
  handed the submitted text back in \<open>min_price\<close> or \<open>max_price\<close>. CPython's \<open>float()\<close>
  ignores surrounding whitespace itself, and \<open>"".strip()\<close> is \<open>""\<close>.
\<close>

theorem malformed_price_dropped:
  assumes strip0: "str_strip B [] = []"
      and bad: "float_of_str B (str_strip B s) = None"
  shows "products B T PER_PAGE db (args(''min_price'' \<mapsto> s)) =
           map_sum id (\<lambda>r. r\<lparr>ctx_min_price := str_strip B s\<rparr>)
             (products B T PER_PAGE db (args(''min_price'' := None))) \<and>
         products B T PER_PAGE db (args(''max_price'' \<mapsto> s)) =
           map_sum id (\<lambda>r. r\<lparr>ctx_max_price := str_strip B s\<rparr>)
             (products B T PER_PAGE db (args(''max_price'' := None)))"
proof
  let ?a = "args(''min_price'' \<mapsto> s)" and ?a' = "args(''min_price'' := None)"
  show "products B T PER_PAGE db ?a =
           map_sum id (\<lambda>r. r\<lparr>ctx_min_price := str_strip B s\<rparr>) (products B T PER_PAGE db ?a')"
  proof (rule products_cong_error)
    show "int_arg B ?a ''page'' 1 = int_arg B ?a' ''page'' 1"
      by (simp add: int_arg_def)
    show "int_arg B ?a ''per_page'' PER_PAGE = int_arg B ?a' ''per_page'' PER_PAGE"
      by (simp add: int_arg_def)
  next
    fix pg pp
    assume pg: "int_arg B ?a ''page'' 1 = Some pg" and pp: "int_arg B ?a ''per_page'' PER_PAGE = Some pp"
      and small: "(max 1 pg - 1) * max 1 (min 60 pp) < 2 ^ 63"
    have pg': "int_arg B ?a' ''page'' 1 = Some pg" using pg by (simp add: int_arg_def)
    have pp': "int_arg B ?a' ''per_page'' PER_PAGE = Some pp" using pp by (simp add: int_arg_def)
    have f: "request_filters B ?a = request_filters B ?a'"
      using build_filters_bad_min[OF bad] by (simp add: args_get_def strip0)
    show "products B T PER_PAGE db ?a =
           map_sum id (\<lambda>r. r\<lparr>ctx_min_price := str_strip B s\<rparr>) (products B T PER_PAGE db ?a')"
      unfolding products_Some[OF pg pp small] products_Some[OF pg' pp' small] f
      by (simp add: args_get_def)
  qed
next
  let ?a = "args(''max_price'' \<mapsto> s)" and ?a' = "args(''max_price'' := None)"
  show "products B T PER_PAGE db ?a =
           map_sum id (\<lambda>r. r\<lparr>ctx_max_price := str_strip B s\<rparr>) (products B T PER_PAGE db ?a')"
  proof (rule products_cong_error)
    show "int_arg B ?a ''page'' 1 = int_arg B ?a' ''page'' 1"
      by (simp add: int_arg_def)
    show "int_arg B ?a ''per_page'' PER_PAGE = int_arg B ?a' ''per_page'' PER_PAGE"
      by (simp add: int_arg_def)
  next
    fix pg pp
    assume pg: "int_arg B ?a ''page'' 1 = Some pg" and pp: "int_arg B ?a ''per_page'' PER_PAGE = Some pp"
      and small: "(max 1 pg - 1) * max 1 (min 60 pp) < 2 ^ 63"
    have pg': "int_arg B ?a' ''page'' 1 = Some pg" using pg by (simp add: int_arg_def)
    have pp': "int_arg B ?a' ''per_page'' PER_PAGE = Some pp" using pp by (simp add: int_arg_def)
    have f: "request_filters B ?a = request_filters B ?a'"
      using build_filters_bad_max[OF bad] by (simp add: args_get_def strip0)
    show "products B T PER_PAGE db ?a =
           map_sum id (\<lambda>r. r\<lparr>ctx_max_price := str_strip B s\<rparr>) (products B T PER_PAGE db ?a')"
      unfolding products_Some[OF pg pp small] products_Some[OF pg' pp' small] f
      by (simp add: args_get_def)
  qed
qed

text \<open>
  \<open>min_price=abc\<close> next to a category filter.
\<close>

theorem malformed_price_dropped_witness:
  "str_strip ascii_builtins [] = [] \<and>
   float_of_str ascii_builtins (str_strip ascii_builtins ''abc'') = None \<and>
   products ascii_builtins name_index 12 catalog [''category'' \<mapsto> ''Lipstick'', ''min_price'' \<mapsto> ''abc''] =
     map_sum id (\<lambda>r. r\<lparr>ctx_min_price := ''abc''\<rparr>)
       (products ascii_builtins name_index 12 catalog [''category'' \<mapsto> ''Lipstick''])"
proof -
  have s0: "str_strip ascii_builtins [] = []" by code_simp
  have bad: "float_of_str ascii_builtins (str_strip ascii_builtins ''abc'') = None" by code_simp
  have st: "str_strip ascii_builtins ''abc'' = ''abc''" by code_simp
  have del: "[''category'' \<mapsto> ''Lipstick''](''min_price'' := None) = [''category'' \<mapsto> ''Lipstick'']"
    by (rule ext) simp
  from malformed_price_dropped[OF s0 bad, of name_index 12 catalog "[''category'' \<mapsto> ''Lipstick'']"]
  show ?thesis using s0 bad unfolding st del by blast
qed

section \<open>Sorting\<close>

lemma sort_lookup_newest: "sort_lookup ''newest'' = (Created_at, DESCENDING)"
  by (simp add: sort_lookup_def sort_map_def)

lemma sort_lookup_unknown: "sort_map s = None \<Longrightarrow> sort_lookup s = (Created_at, DESCENDING)"
  by (simp add: sort_lookup_def)

lemma newest_first:
  "sorted_wrt (\<lambda>a b. created_at b \<le> created_at a) (cursor_sort Created_at DESCENDING ds)"
proof -
  have "sorted (map created_at (sort_key created_at (rev ds)))" by (rule sorted_sort_key)
  then have "sorted_wrt (\<lambda>a b. created_at a \<le> created_at b) (sort_key created_at (rev ds))"
    by (simp add: sorted_wrt_map)
  then have "sorted_wrt (\<lambda>a b. created_at b \<le> created_at a) (rev (sort_key created_at (rev ds)))"
    by (simp add: sorted_wrt_rev)
  then show ?thesis by (simp add: cursor_sort_def sort_asc_def)
qed

lemma newest_first_page:
  "sorted_wrt (\<lambda>a b. created_at (doc b) \<le> created_at (doc a))
     (map (project T q) (take n (drop m (cursor_sort Created_at DESCENDING ds))))"
proof -
  have "sorted_wrt (\<lambda>a b. created_at b \<le> created_at a)
          (take n (drop m (cursor_sort Created_at DESCENDING ds)))"
    by (intro sorted_wrt_take sorted_wrt_drop newest_first)
  then show ?thesis by (simp add: sorted_wrt_map project_def)
qed

text \<open>
  C4 as stated fails: the handler trims \<open>sort\<close> before the lookup, so a value that is not
  in the enumeration but trims to one of its keys is not served as \<open>newest\<close>. Here
  \<open>" price_asc"\<close> sorts by ascending price.
\<close>

theorem unknown_sort_counterexample:
  "sort_map '' price_asc'' = None \<and>
   map_sum id (map (name \<circ> doc) \<circ> ctx_items)
     (products ascii_builtins name_index 12 catalog [''sort'' \<mapsto> '' price_asc''])
     = Inr [''Plain Balm'', ''Ruby Kiss'', ''Velvet Matte'', ''Dew Drop''] \<and>
   map_sum id (map (name \<circ> doc) \<circ> ctx_items)
     (products ascii_builtins name_index 12 catalog [''sort'' \<mapsto> ''newest''])
     = Inr [''Plain Balm'', ''Velvet Matte'', ''Ruby Kiss'', ''Dew Drop'']"
  by code_simp

text \<open>
  C4, amended. When the trimmed \<open>sort\<close> value is not a key of the enumeration, the request
  gives what the same request with \<open>sort=newest\<close> gives, except that the template is handed
  the submitted value back in \<open>sort\<close>; the items are in descending order of creation time,
  and the only errors the handler can raise are the ValueError of a non-integer \<open>page\<close> or
  \<open>per_page\<close> and the OverflowError of a skip too large to encode.
\<close>

theorem unknown_sort_is_newest:
  assumes unknown: "sort_map (str_strip B s) = None"
      and newest: "str_strip B ''newest'' = ''newest''"
  shows "products B T PER_PAGE db (args(''sort'' \<mapsto> s)) =
           map_sum id (\<lambda>r. r\<lparr>ctx_sort := str_strip B s\<rparr>)
             (products B T PER_PAGE db (args(''sort'' \<mapsto> ''newest''))) \<and>
         (case products B T PER_PAGE db (args(''sort'' \<mapsto> s)) of
            Inl e \<Rightarrow> e = ValueError \<or> e = OverflowError
          | Inr r \<Rightarrow> sorted_wrt (\<lambda>a b. created_at (doc b) \<le> created_at (doc a)) (ctx_items r))"
proof
  let ?a = "args(''sort'' \<mapsto> s)" and ?a' = "args(''sort'' \<mapsto> ''newest'')"
  have srt: "request_sort B ?a = (Created_at, DESCENDING)"
    using sort_lookup_unknown[OF unknown] by (simp add: args_get_def)
  have srt': "request_sort B ?a' = (Created_at, DESCENDING)"
    using sort_lookup_newest by (simp add: args_get_def newest)
  show "products B T PER_PAGE db ?a =
           map_sum id (\<lambda>r. r\<lparr>ctx_sort := str_strip B s\<rparr>) (products B T PER_PAGE db ?a')"
  proof (rule products_cong_error)
    show "int_arg B ?a ''page'' 1 = int_arg B ?a' ''page'' 1"
      by (simp add: int_arg_def)
    show "int_arg B ?a ''per_page'' PER_PAGE = int_arg B ?a' ''per_page'' PER_PAGE"
      by (simp add: int_arg_def)
  next
    fix pg pp
    assume pg: "int_arg B ?a ''page'' 1 = Some pg" and pp: "int_arg B ?a ''per_page'' PER_PAGE = Some pp"
      and small: "(max 1 pg - 1) * max 1 (min 60 pp) < 2 ^ 63"
    have pg': "int_arg B ?a' ''page'' 1 = Some pg" using pg by (simp add: int_arg_def)
    have pp': "int_arg B ?a' ''per_page'' PER_PAGE = Some pp" using pp by (simp add: int_arg_def)
    have f: "request_filters B ?a = request_filters B ?a'"
      by (simp add: args_get_def)
    show "products B T PER_PAGE db ?a =
           map_sum id (\<lambda>r. r\<lparr>ctx_sort := str_strip B s\<rparr>) (products B T PER_PAGE db ?a')"
      unfolding products_Some[OF pg pp small] products_Some[OF pg' pp' small] f srt srt'
      by (simp add: args_get_def)
  qed
  show "case products B T PER_PAGE db ?a of
            Inl e \<Rightarrow> e = ValueError \<or> e = OverflowError
          | Inr r \<Rightarrow> sorted_wrt (\<lambda>a b. created_at (doc b) \<le> created_at (doc a)) (ctx_items r)"
  proof (cases "int_arg B ?a ''page'' 1")
    case None
    from products_None_page[OF this] show ?thesis by simp
  next
    case pg: (Some pg)
    show ?thesis
    proof (cases "int_arg B ?a ''per_page'' PER_PAGE")
      case None
      from products_None_per_page[OF this] show ?thesis by simp
    next
      case pp: (Some pp)
      show ?thesis
      proof (cases "(max 1 pg - 1) * max 1 (min 60 pp) < 2 ^ 63")
        case True
        show ?thesis
          unfolding products_Some[OF pg pp True] srt
          by (simp add: newest_first_page)
      next
        case False
        then have "2 ^ 63 \<le> (max 1 pg - 1) * max 1 (min 60 pp)" by (simp only: not_less)
        from products_Overflow[OF pg pp this] show ?thesis by simp
      qed
    qed
  qed
qed

text \<open>
  \<open>sort=bogus_value\<close> on the sample catalog.
\<close>

theorem unknown_sort_is_newest_witness:
  "sort_map (str_strip ascii_builtins ''bogus_value'') = None \<and>
   str_strip ascii_builtins ''newest'' = ''newest'' \<and>
   products ascii_builtins name_index 12 catalog [''sort'' \<mapsto> ''bogus_value''] =
     map_sum id (\<lambda>r. r\<lparr>ctx_sort := ''bogus_value''\<rparr>)
       (products ascii_builtins name_index 12 catalog [''sort'' \<mapsto> ''newest''])"
proof -
  have u: "sort_map (str_strip ascii_builtins ''bogus_value'') = None" by code_simp
  have n: "str_strip ascii_builtins ''newest'' = ''newest''" by code_simp
  have st: "str_strip ascii_builtins ''bogus_value'' = ''bogus_value''" by code_simp
  from unknown_sort_is_newest[OF u n, of name_index 12 catalog Map.empty]
  show ?thesis using u n unfolding st by blast
qed

section \<open>Filter composition\<close>








section \<open>The price range\<close>





section \<open>The filter lists\<close>

lemma set_truthy: "set (truthy vs) = {s. s \<noteq> [] \<and> Some s \<in> set vs}"
  by (induction vs) (auto simp: truthy_def split: option.splits)

lemma truthy_Cons:
  "truthy (v # vs) = (case v of None \<Rightarrow> [] | Some s \<Rightarrow> (if s \<noteq> [] then [s] else [])) @ truthy vs"
  by (simp add: truthy_def)

lemma distinct_truthy: "distinct vs \<Longrightarrow> distinct (truthy vs)"
proof (induction vs)
  case Nil
  then show ?case by (simp add: truthy_def)
next
  case (Cons v vs)
  then show ?case
    by (cases v) (auto simp: truthy_Cons set_truthy)
qed

lemma filter_list_props:
  "sorted (py_sorted (truthy (distinct_values fld db))) \<and>
   distinct (py_sorted (truthy (distinct_values fld db))) \<and>
   set (py_sorted (truthy (distinct_values fld db))) = {s. s \<noteq> [] \<and> Some s \<in> fld ` set db}"
  unfolding py_sorted_def distinct_values_def
  by (simp add: set_truthy distinct_truthy)

text \<open>
  C8. The \<open>categories\<close> and \<open>brands\<close> lists of a listing are in ascending order (Python's
  string order), without repetition, and hold exactly the non-empty, non-null values that
  occur in the collection: no empty string and no null.
\<close>

theorem filter_lists_sorted:
  assumes run: "products B T PER_PAGE db args = Inr r"
  shows "sorted (ctx_categories r) \<and> distinct (ctx_categories r) \<and>
         set (ctx_categories r) = {s. s \<noteq> [] \<and> Some s \<in> category ` set db} \<and>
         sorted (ctx_brands r) \<and> distinct (ctx_brands r) \<and>
         set (ctx_brands r) = {s. s \<noteq> [] \<and> Some s \<in> brand ` set db}"
proof -
  from run obtain pg pp where pg: "int_arg B args ''page'' 1 = Some pg"
    and pp: "int_arg B args ''per_page'' PER_PAGE = Some pp"
    by (rule products_InrE)
  note f = products_fields[OF run pg pp]
  show ?thesis
    unfolding f(5) f(6)
    using filter_list_props[of category db] filter_list_props[of brand db] by blast
qed

text \<open>
  The sample catalog has a document with a null category and an empty brand; neither shows.
\<close>

theorem filter_lists_sorted_witness:
  "\<exists>r. products ascii_builtins name_index 12 catalog Map.empty = Inr r \<and>
       ctx_categories r = [''Lipstick'', ''Serum''] \<and>
       ctx_brands r = [''AuraGlow'', ''KenChic'', ''LuxeLily''] \<and>
       sorted (ctx_categories r) \<and> [] \<notin> set (ctx_brands r)"
proof -
  have pg: "int_arg ascii_builtins Map.empty ''page'' 1 = Some 1" by code_simp
  have pp: "int_arg ascii_builtins Map.empty ''per_page'' 12 = Some 12" by code_simp
  obtain r where run: "products ascii_builtins name_index 12 catalog Map.empty = Inr r"
    using products_Inr_ex[OF pg pp] by auto
  have c: "ctx_categories r = [''Lipstick'', ''Serum'']"
    unfolding products_fields(5)[OF run pg pp] by code_simp
  have b: "ctx_brands r = [''AuraGlow'', ''KenChic'', ''LuxeLily'']"
    unfolding products_fields(6)[OF run pg pp] by code_simp
  from filter_lists_sorted[OF run]
  have s: "sorted (ctx_categories r)" and n: "[] \<notin> set (ctx_brands r)" by simp_all
  from run c b s n show ?thesis by (intro exI[of _ r] conjI)
qed

section \<open>Creating a product\<close>

lemma find_one_slug_None: "find_one_slug db s = None \<longleftrightarrow> s \<notin> set (map slug db)"
  by (auto simp: find_one_slug_def find_None_iff)

lemma admin_new_store:
  "snd (admin_new B TOKEN now1 now2 db req) = db \<or>
   (\<exists>d. snd (admin_new B TOKEN now1 now2 db req) = db @ [d] \<and>
        slug d \<notin> set (map slug db) \<and>
        slug d = slugify B (or_str (r_form req ''slug'') (stripped B (r_form req) ''name'' [])) \<and>
        float_field B (r_form req) ''price'' ''0'' (Finite 0) = Some (price d) \<and>
        float_field B (r_form req) ''sale_price'' ''0'' (Finite 0) = Some (sale_price d))"
  unfolding admin_new_def Let_def insert_one_def find_one_slug_None[symmetric]
  by (simp split: option.splits)

lemma store_inv_append:
  "store_inv (db @ [d]) \<longleftrightarrow>
     store_inv db \<and> slug d \<notin> set (map slug db) \<and>
     py_le (Finite 0) (price d) \<and> py_le (Finite 0) (sale_price d)"
  by (auto simp: store_inv_def)

text \<open>
  C9 as stated fails: \<open>admin_new\<close> stores \<open>float(price)\<close> and \<open>float(sale_price)\<close> as they
  are read, with no check of their sign. From a collection that satisfies the invariant, a
  form with \<open>price=-5\<close> leaves one that does not.
\<close>

theorem admin_new_invariant_counterexample:
  "store_inv catalog \<and>
   \<not> store_inv (snd (admin_new ascii_builtins ''secret'' 5 6 catalog
       \<lparr>r_method = POST, r_headers = [''X-Admin-Token'' \<mapsto> ''secret''], r_args = Map.empty,
        r_form = [''name'' \<mapsto> ''Night Cream'', ''price'' \<mapsto> ''-5'']\<rparr>))"
  by code_simp

text \<open>
  C9, amended. Every call of \<open>admin_new\<close>, whatever its outcome, keeps slugs unique, and a
  request whose slug is already in the collection inserts nothing. The whole invariant,
  non-negative prices included, is kept whenever the price and sale price that \<open>float()\<close>
  reads from the form are non-negative (Python's \<open>>= 0\<close>, which NaN does not pass).
\<close>

theorem admin_new_preserves_unique_slugs:
  "(distinct (map slug db) \<longrightarrow>
      distinct (map slug (snd (admin_new B TOKEN now1 now2 db req)))) \<and>
   (slugify B (or_str (r_form req ''slug'') (stripped B (r_form req) ''name'' []))
      \<in> set (map slug db) \<longrightarrow>
      snd (admin_new B TOKEN now1 now2 db req) = db) \<and>
   (store_inv db \<and>
    (case float_field B (r_form req) ''price'' ''0'' (Finite 0) of
       None \<Rightarrow> True | Some x \<Rightarrow> py_le (Finite 0) x) \<and>
    (case float_field B (r_form req) ''sale_price'' ''0'' (Finite 0) of
       None \<Rightarrow> True | Some x \<Rightarrow> py_le (Finite 0) x)
      \<longrightarrow> store_inv (snd (admin_new B TOKEN now1 now2 db req)))"
proof -
  let ?db' = "snd (admin_new B TOKEN now1 now2 db req)"
  let ?s = "slugify B (or_str (r_form req ''slug'') (stripped B (r_form req) ''name'' []))"
  consider (same) "?db' = db"
    | (ins) d where "?db' = db @ [d]" "slug d \<notin> set (map slug db)" "slug d = ?s"
        "float_field B (r_form req) ''price'' ''0'' (Finite 0) = Some (price d)"
        "float_field B (r_form req) ''sale_price'' ''0'' (Finite 0) = Some (sale_price d)"
    using admin_new_store[of B TOKEN now1 now2 db req] by blast
  then show ?thesis
  proof cases
    case same
    then show ?thesis by simp
  next
    case ins
    have 1: "distinct (map slug db) \<longrightarrow> distinct (map slug ?db')"
      unfolding ins(1) using ins(2) by simp
    have 2: "?s \<in> set (map slug db) \<longrightarrow> ?db' = db"
      using ins(2) unfolding ins(3) by blast
    have 3: "store_inv db \<and>
        (case float_field B (r_form req) ''price'' ''0'' (Finite 0) of
       None \<Rightarrow> True | Some x \<Rightarrow> py_le (Finite 0) x) \<and>
        (case float_field B (r_form req) ''sale_price'' ''0'' (Finite 0) of
       None \<Rightarrow> True | Some x \<Rightarrow> py_le (Finite 0) x)
          \<longrightarrow> store_inv ?db'"
      unfolding ins(1) ins(4) ins(5) store_inv_append using ins(2) by simp
    from 1 2 3 show ?thesis by (intro conjI)
  qed
qed

text \<open>
  A new product is inserted and the invariant kept; a name whose slug is taken inserts
  nothing.
\<close>

theorem admin_new_preserves_unique_slugs_witness:
  "store_inv catalog \<and>
   store_inv (snd (admin_new ascii_builtins ''secret'' 5 6 catalog
       \<lparr>r_method = POST, r_headers = [''X-Admin-Token'' \<mapsto> ''secret''], r_args = Map.empty,
        r_form = [''name'' \<mapsto> ''Night Cream'', ''price'' \<mapsto> ''5'']\<rparr>)) \<and>
   length (snd (admin_new ascii_builtins ''secret'' 5 6 catalog
       \<lparr>r_method = POST, r_headers = [''X-Admin-Token'' \<mapsto> ''secret''], r_args = Map.empty,
        r_form = [''name'' \<mapsto> ''Night Cream'', ''price'' \<mapsto> ''5'']\<rparr>)) = 5 \<and>
   snd (admin_new ascii_builtins ''secret'' 5 6 catalog
       \<lparr>r_method = POST, r_headers = [''X-Admin-Token'' \<mapsto> ''secret''], r_args = Map.empty,
        r_form = [''name'' \<mapsto> ''Ruby Kiss!'', ''price'' \<mapsto> ''5'']\<rparr>) = catalog"
proof -
  let ?new = "\<lparr>r_method = POST, r_headers = [''X-Admin-Token'' \<mapsto> ''secret''], r_args = Map.empty,
        r_form = [''name'' \<mapsto> ''Night Cream'', ''price'' \<mapsto> ''5'']\<rparr>"
  let ?dup = "\<lparr>r_method = POST, r_headers = [''X-Admin-Token'' \<mapsto> ''secret''], r_args = Map.empty,
        r_form = [''name'' \<mapsto> ''Ruby Kiss!'', ''price'' \<mapsto> ''5'']\<rparr>"
  have inv: "store_inv catalog" by code_simp
  have p: "(case float_field ascii_builtins (r_form ?new) ''price'' ''0'' (Finite 0) of
       None \<Rightarrow> True | Some x \<Rightarrow> py_le (Finite 0) x)"
    by code_simp
  have sp: "(case float_field ascii_builtins (r_form ?new) ''sale_price'' ''0'' (Finite 0) of
       None \<Rightarrow> True | Some x \<Rightarrow> py_le (Finite 0) x)"
    by code_simp
  have ex: "slugify ascii_builtins (or_str (r_form ?dup ''slug'') (stripped ascii_builtins (r_form ?dup) ''name'' []))
      \<in> set (map slug catalog)"
    by code_simp
  from admin_new_preserves_unique_slugs[of catalog ascii_builtins "''secret''" 5 6 ?new] inv p sp
  have a: "store_inv (snd (admin_new ascii_builtins ''secret'' 5 6 catalog ?new))" by blast
  from admin_new_preserves_unique_slugs[of catalog ascii_builtins "''secret''" 5 6 ?dup] ex
  have b: "snd (admin_new ascii_builtins ''secret'' 5 6 catalog ?dup) = catalog" by blast
  have n: "length (snd (admin_new ascii_builtins ''secret'' 5 6 catalog ?new)) = 5" by code_simp
  from inv a n b show ?thesis by (intro conjI)
qed

section \<open>Slugs\<close>

lemma hyphen_not_alnum: "\<not> is_alnum CHR ''-''"
  by (simp add: is_alnum_def)

lemma hyphenated_Nil: "hyphenated []"
  by (simp add: hyphenated_def)

lemma hyphenated_Cons_alnum: "is_alnum c \<Longrightarrow> hyphenated (c # cs) = hyphenated cs"
  by (cases cs) (auto simp: hyphenated_def)

lemma hyphenated_Cons_hyphen:
  "hyphenated (CHR ''-'' # cs) = (hyphenated cs \<and> (cs = [] \<or> is_alnum (hd cs)))"
  by (cases cs) (auto simp: hyphenated_def hyphen_not_alnum)

lemma hyphenated_Cons_other: "\<not> is_alnum c \<Longrightarrow> c \<noteq> CHR ''-'' \<Longrightarrow> \<not> hyphenated (c # cs)"
  by (auto simp: hyphenated_def)

lemma hd_re_sub_alnum: "cs \<noteq> [] \<Longrightarrow> is_alnum (hd cs) \<Longrightarrow> hd (re_sub_nonalnum cs) = hd cs"
  by (cases cs) simp_all

lemma hyphenated_re_sub: "hyphenated (re_sub_nonalnum s)"
proof (induction s rule: re_sub_nonalnum.induct)
  case 1
  show ?case by (simp add: hyphenated_Nil)
next
  case (2 c cs)
  show ?case
  proof (cases "is_alnum c")
    case True
    with 2 show ?thesis by (simp add: hyphenated_Cons_alnum)
  next
    case False
    let ?d = "dropWhile (\<lambda>x. \<not> is_alnum x) cs"
    from 2 False have h: "hyphenated (re_sub_nonalnum ?d)" by simp
    have "re_sub_nonalnum ?d = [] \<or> is_alnum (hd (re_sub_nonalnum ?d))"
    proof (cases "?d = []")
      case True
      then have "re_sub_nonalnum ?d = []" by (simp only: re_sub_nonalnum.simps)
      then show ?thesis ..
    next
      case ne: False
      from hd_dropWhile[OF ne] have "is_alnum (hd ?d)" by simp
      with ne show ?thesis by (simp add: hd_re_sub_alnum)
    qed
    with h False show ?thesis by (simp add: hyphenated_Cons_hyphen)
  qed
qed

lemma re_sub_hyphenated: "hyphenated s \<Longrightarrow> re_sub_nonalnum s = s"
proof (induction s rule: re_sub_nonalnum.induct)
  case 1
  show ?case by simp
next
  case (2 c cs)
  show ?case
  proof (cases "is_alnum c")
    case True
    with 2 show ?thesis by (simp add: hyphenated_Cons_alnum)
  next
    case False
    with "2.prems" have c: "c = CHR ''-''" using hyphenated_Cons_other by blast
    from "2.prems" have h: "hyphenated cs" and e: "cs = [] \<or> is_alnum (hd cs)"
      unfolding c hyphenated_Cons_hyphen by simp_all
    from e have d: "dropWhile (\<lambda>x. \<not> is_alnum x) cs = cs"
      by (simp add: dropWhile_eq_self_iff)
    from "2.IH"(2)[OF False] h have "re_sub_nonalnum cs = cs" unfolding d by simp
    with False c d show ?thesis by simp
  qed
qed

lemma hyphenated_append: "hyphenated (xs @ ys) \<Longrightarrow> hyphenated xs \<and> hyphenated ys"
  by (auto simp: hyphenated_def successively_append_iff)

lemma hyphenated_dropWhile: "hyphenated s \<Longrightarrow> hyphenated (dropWhile P s)"
  using hyphenated_append[of "takeWhile P s" "dropWhile P s"] by simp

lemma hyphenated_rev: "hyphenated (rev s) = hyphenated s"
  by (auto simp: hyphenated_def disj_commute)

lemma hyphenated_strip: "hyphenated s \<Longrightarrow> hyphenated (strip_chars cs s)"
  unfolding strip_chars_def
  by (simp add: hyphenated_rev hyphenated_dropWhile)

lemma is_alnum_code:
  "is_alnum c \<longleftrightarrow>
     (97 \<le> (of_char c :: nat) \<and> (of_char c :: nat) \<le> 122) \<or>
     (65 \<le> (of_char c :: nat) \<and> (of_char c :: nat) \<le> 90) \<or>
     (48 \<le> (of_char c :: nat) \<and> (of_char c :: nat) \<le> 57)"
  by (simp add: is_alnum_def less_eq_char_def)

lemma lower_char_code:
  "(of_char (lower_char c) :: nat) =
     (if 65 \<le> (of_char c :: nat) \<and> (of_char c :: nat) \<le> 90 then of_char c + 32 else of_char c)"
  by (simp add: lower_char_def less_eq_char_def)

lemma hyphen_code: "c = CHR ''-'' \<longleftrightarrow> (of_char c :: nat) = 45"
proof
  assume "c = CHR ''-''" then show "(of_char c :: nat) = 45" by simp
next
  assume "(of_char c :: nat) = 45"
  then have "(of_char c :: nat) = of_char CHR ''-''" by simp
  then show "c = CHR ''-''" by (simp only: of_char_eq_iff)
qed

lemma is_alnum_lower: "is_alnum (lower_char c) = is_alnum c"
  unfolding is_alnum_code lower_char_code by auto

lemma lower_char_hyphen: "lower_char c = CHR ''-'' \<longleftrightarrow> c = CHR ''-''"
  unfolding hyphen_code lower_char_code by auto

lemma lower_char_idem: "lower_char (lower_char c) = lower_char c"
proof -
  have "(of_char (lower_char (lower_char c)) :: nat) = of_char (lower_char c)"
    unfolding lower_char_code by auto
  then show ?thesis by (simp only: of_char_eq_iff)
qed

lemma lower_idem: "lower (lower s) = lower s"
  by (simp add: lower_def lower_char_idem)

lemma hyphenated_lower: "hyphenated s \<Longrightarrow> hyphenated (lower s)"
  by (auto simp: hyphenated_def lower_def successively_map is_alnum_lower lower_char_hyphen)

lemma lower_char_range:
  "is_alnum c \<Longrightarrow>
     (CHR ''a'' \<le> lower_char c \<and> lower_char c \<le> CHR ''z'') \<or>
     (CHR ''0'' \<le> lower_char c \<and> lower_char c \<le> CHR ''9'')"
  unfolding is_alnum_code less_eq_char_def lower_char_code by auto

lemma strip_chars_ends:
  "strip_chars cs s = [] \<or>
   (hd (strip_chars cs s) \<notin> set cs \<and> last (strip_chars cs s) \<notin> set cs)"
proof (cases "strip_chars cs s = []")
  case True
  then show ?thesis ..
next
  case False
  let ?P = "\<lambda>c. c \<in> set cs"
  let ?y = "dropWhile ?P s"
  let ?z = "dropWhile ?P (rev ?y)"
  have z: "strip_chars cs s = rev ?z" by (simp add: strip_chars_def)
  from False have zne: "?z \<noteq> []" unfolding z by simp
  have yne: "?y \<noteq> []"
  proof
    assume "?y = []"
    then have "?z = []" by (simp only: rev.simps dropWhile.simps)
    with zne show False ..
  qed
  have "last (rev ?z) = hd ?z" by (rule last_rev)
  with hd_dropWhile[OF zne] have l: "last (strip_chars cs s) \<notin> set cs" unfolding z by simp
  have "rev ?y = takeWhile ?P (rev ?y) @ ?z" by simp
  then have "?y = rev ?z @ rev (takeWhile ?P (rev ?y))"
    by (metis rev_append rev_rev_ident)
  then have "hd ?y = hd (rev ?z)" using zne by (metis hd_append2 rev_is_Nil_conv)
  with hd_dropWhile[OF yne] have h: "hd (strip_chars cs s) \<notin> set cs" unfolding z by simp
  from h l show ?thesis by blast
qed

lemma strip_chars_fixed:
  assumes "s = [] \<or> (hd s \<notin> set cs \<and> last s \<notin> set cs)"
  shows "strip_chars cs s = s"
proof (cases "s = []")
  case True
  then show ?thesis by (simp add: strip_chars_def)
next
  case False
  with assms have h: "hd s \<notin> set cs" and l: "last s \<notin> set cs" by simp_all
  from h have a: "dropWhile (\<lambda>c. c \<in> set cs) s = s" by (simp add: dropWhile_eq_self_iff)
  from l False have b: "dropWhile (\<lambda>c. c \<in> set cs) (rev s) = rev s"
    by (simp add: dropWhile_eq_self_iff hd_rev)
  show ?thesis unfolding strip_chars_def a b by simp
qed

lemma ends_lower:
  assumes "s = [] \<or> (hd s \<notin> set ''-'' \<and> last s \<notin> set ''-'')"
  shows "lower s = [] \<or> (hd (lower s) \<notin> set ''-'' \<and> last (lower s) \<notin> set ''-'')"
proof (cases "s = []")
  case True
  then show ?thesis by (simp add: lower_def)
next
  case False
  with assms have "hd s \<noteq> CHR ''-''" "last s \<noteq> CHR ''-''" by simp_all
  with False show ?thesis
    by (simp add: lower_def hd_map last_map lower_char_hyphen)
qed

lemma slug_shape:
  "hyphenated (slugify B s) \<and>
   (slugify B s = [] \<or> (hd (slugify B s) \<notin> set ''-'' \<and> last (slugify B s) \<notin> set ''-'')) \<and>
   lower (slugify B s) = slugify B s"
  unfolding slugify_def Let_def
  by (intro conjI hyphenated_lower hyphenated_strip hyphenated_re_sub ends_lower strip_chars_ends
      lower_idem)

lemma slug_chars:
  assumes "c \<in> set (slugify B s)"
  shows "(CHR ''a'' \<le> c \<and> c \<le> CHR ''z'') \<or> (CHR ''0'' \<le> c \<and> c \<le> CHR ''9'') \<or> c = CHR ''-''"
proof -
  let ?t = "strip_chars ''-'' (re_sub_nonalnum (encode_ascii_ignore (nfkd B s)))"
  from assms obtain d where d: "d \<in> set ?t" and c: "c = lower_char d"
    unfolding slugify_def Let_def lower_def by auto
  have "hyphenated ?t" by (intro hyphenated_strip hyphenated_re_sub)
  with d have "is_alnum d \<or> d = CHR ''-''" unfolding hyphenated_def by blast
  then show ?thesis
  proof
    assume "is_alnum d"
    from lower_char_range[OF this] show ?thesis unfolding c by blast
  next
    assume "d = CHR ''-''"
    then have "c = CHR ''-''" unfolding c by (simp add: lower_char_hyphen)
    then show ?thesis by blast
  qed
qed

lemma slug_ascii: "c \<in> set (slugify B s) \<Longrightarrow> (of_char c :: nat) < 128"
  using slug_chars[of c B s] unfolding less_eq_char_def hyphen_code by auto

text \<open>
  C10. \<open>slugify\<close> returns only lowercase ASCII letters, digits and hyphens, with no hyphen
  at either end, and applying it to its own result changes nothing. The second application
  runs NFKD normalisation on ASCII text, which the Unicode standard leaves unchanged; this
  is the one fact about \<open>unicodedata.normalize\<close> the proof takes.
\<close>

theorem slugify_idempotent:
  "((\<forall>t. (\<forall>c\<in>set t. (of_char c :: nat) < 128) \<longrightarrow> nfkd B t = t) \<longrightarrow>
      slugify B (slugify B s) = slugify B s) \<and>
   (\<forall>c\<in>set (slugify B s).
      (CHR ''a'' \<le> c \<and> c \<le> CHR ''z'') \<or> (CHR ''0'' \<le> c \<and> c \<le> CHR ''9'') \<or> c = CHR ''-'') \<and>
   (\<forall>t. slugify B s \<noteq> CHR ''-'' # t) \<and> (\<forall>t. slugify B s \<noteq> t @ [CHR ''-''])"
proof (intro conjI impI allI ballI)
  let ?u = "slugify B s"
  note sh = slug_shape[of B s]
  assume nf: "\<forall>t. (\<forall>c\<in>set t. (of_char c :: nat) < 128) \<longrightarrow> nfkd B t = t"
  have ascii: "\<forall>c\<in>set ?u. (of_char c :: nat) < 128" using slug_ascii by blast
  with nf have 1: "nfkd B ?u = ?u" by blast
  from ascii have 2: "encode_ascii_ignore ?u = ?u" by (simp add: encode_ascii_ignore_def)
  from sh have 3: "re_sub_nonalnum ?u = ?u" by (intro re_sub_hyphenated) simp
  from sh have 4: "strip_chars ''-'' ?u = ?u" by (intro strip_chars_fixed) blast
  from sh have 5: "lower ?u = ?u" by simp
  have "slugify B ?u = lower (strip_chars ''-'' (re_sub_nonalnum (encode_ascii_ignore (nfkd B ?u))))"
    by (simp add: slugify_def)
  then show "slugify B ?u = ?u" unfolding 1 2 3 4 5 .
next
  fix c assume "c \<in> set (slugify B s)"
  then show "(CHR ''a'' \<le> c \<and> c \<le> CHR ''z'') \<or> (CHR ''0'' \<le> c \<and> c \<le> CHR ''9'') \<or> c = CHR ''-''"
    by (rule slug_chars)
next
  fix t
  from slug_shape[of B s] show "slugify B s \<noteq> CHR ''-'' # t" by auto
next
  fix t
  from slug_shape[of B s] show "slugify B s \<noteq> t @ [CHR ''-'']" by auto
qed

text \<open>A name with spaces, punctuation and a run of hyphens.\<close>

theorem slugify_idempotent_witness:
  "slugify ascii_builtins ''  Hello, World! -- 42 '' = ''hello-world-42'' \<and>
   slugify ascii_builtins (slugify ascii_builtins ''  Hello, World! -- 42 '') = ''hello-world-42''"
proof -
  have nf: "\<forall>t. (\<forall>c\<in>set t. (of_char c :: nat) < 128) \<longrightarrow> nfkd ascii_builtins t = t"
    by (simp add: ascii_builtins_def)
  have v: "slugify ascii_builtins ''  Hello, World! -- 42 '' = ''hello-world-42''" by code_simp
  from slugify_idempotent[of ascii_builtins "''  Hello, World! -- 42 ''"] nf
  have "slugify ascii_builtins (slugify ascii_builtins ''  Hello, World! -- 42 '')
          = slugify ascii_builtins ''  Hello, World! -- 42 ''" by blast
  with v show ?thesis by simp
qed

end
